theory Spec2Isabelle
  imports Main
begin

section \<open>JavaScript strings and errors\<close>

text \<open>
  Strings are \<^typ>\<open>string\<close>. The three string methods the source uses are
  \<open>String.prototype.startsWith\<close>, \<open>includes\<close> and \<open>toLowerCase\<close>. Lower-casing maps
  the letters \<open>A\<close> to \<open>Z\<close> to \<open>a\<close> to \<open>z\<close> and leaves every other character as it
  is; the two needles the source searches for after lower-casing (\<open>insufficient\<close>,
  \<open>reject\<close>) are ASCII.
\<close>

fun startsWith :: "string \<Rightarrow> string \<Rightarrow> bool" where
  "startsWith s [] = True"
| "startsWith [] (c # cs) = False"
| "startsWith (x # xs) (c # cs) = (x = c \<and> startsWith xs cs)"

fun js_includes :: "string \<Rightarrow> string \<Rightarrow> bool" where
  "js_includes [] n = (n = [])"
| "js_includes (x # xs) n = (startsWith (x # xs) n \<or> js_includes xs n)"

definition toLowerCaseChar :: "char \<Rightarrow> char" where
  "toLowerCaseChar c =
     (let n = (of_char c :: nat) in if 65 \<le> n \<and> n \<le> 90 then char_of (n + 32) else c)"

definition toLowerCase :: "string \<Rightarrow> string" where
  "toLowerCase s = map toLowerCaseChar s"

text \<open>
  A thrown value is an \<open>Error\<close> object. Its \<open>message\<close> may be absent, which is what the
  optional chaining \<open>error.message?.\<close> of the source guards against.
\<close>

datatype js_error = Error (message: "string option")

text \<open>\<open>error.message?.includes(needle)\<close>: \<open>undefined\<close> (falsy) when there is no message.\<close>

definition message_includes :: "js_error \<Rightarrow> string \<Rightarrow> bool" where
  "message_includes error needle =
     (case message error of None \<Rightarrow> False | Some m \<Rightarrow> js_includes m needle)"

text \<open>\<open>error.message?.toLowerCase().includes(needle)\<close>.\<close>

definition message_lower_includes :: "js_error \<Rightarrow> string \<Rightarrow> bool" where
  "message_lower_includes error needle =
     (case message error of None \<Rightarrow> False | Some m \<Rightarrow> js_includes (toLowerCase m) needle)"

section \<open>The wallet capability and the transaction block\<close>

datatype pure_value = PureBigInt int | PureString string

datatype tx_argument = GasCoin | Pure pure_value | NestedResult nat nat

datatype tx_command =
    SplitCoins tx_argument "tx_argument list"
  | TransferObjects "tx_argument list" tx_argument

type_synonym TransactionBlock = "tx_command list"

text \<open>
  \<open>txb.splitCoins(coin, amounts)\<close> appends the command and returns a handle on its
  result, the index of the command; destructuring the handle (\<open>const [coin] = ...\<close>)
  gives the nested result \<open>0\<close> of that command. \<open>txb.transferObjects(objects, address)\<close>
  appends the command.
\<close>

definition splitCoins ::
  "TransactionBlock \<Rightarrow> tx_argument \<Rightarrow> tx_argument list \<Rightarrow> TransactionBlock \<times> nat" where
  "splitCoins txb coin amounts = (txb @ [SplitCoins coin amounts], length txb)"

definition transferObjects ::
  "TransactionBlock \<Rightarrow> tx_argument list \<Rightarrow> tx_argument \<Rightarrow> TransactionBlock" where
  "transferObjects txb objects addr = txb @ [TransferObjects objects addr]"

record sign_options =
  showEvents :: bool

record sign_request =
  transactionBlock :: TransactionBlock
  options :: sign_options

record sign_response =
  tx_digest :: string

type_synonym signer = "sign_request \<Rightarrow> js_error + sign_response"

record account_info =
  address :: string

record wallet =
  signAndExecuteTransactionBlock :: "signer option"
  connected :: bool
  account :: "account_info option"

section \<open>The page: form state, requests and observable effects\<close>

record js_file =
  file_name :: string
  file_size :: nat
  file_type :: string

record form_data =
  name :: string
  twitter :: string
  website :: string
  description :: string
  profilePicture :: "js_file option"

record page_state =
  loading :: bool
  formData :: form_data
  previewUrl :: "string option"

datatype form_value = Text string | Blob js_file

type_synonym FormData = "(string \<times> form_value) list"

record post_request =
  url :: string
  body :: FormData
  headers :: "(string \<times> string) list"

record http_response =
  http_status :: nat

text \<open>
  Every call that leaves the two functions is an event, in the order the source issues it.
  Toast identifiers are not tracked.
\<close>

datatype event =
    PreventDefault
  | ToastError string
  | ToastSuccess string
  | ToastLoading string
  | ToastConfirm string
  | ToastDismiss
  | ConsoleError string js_error
  | SignAndExecute sign_request
  | HttpPost post_request
  | ReadAsDataURL js_file
  | SetLoading bool
  | SetFormData form_data
  | SetPreviewUrl "string option"
  | Navigate string

fun apply_event :: "page_state \<Rightarrow> event \<Rightarrow> page_state" where
  "apply_event st (SetLoading b) = st\<lparr>loading := b\<rparr>"
| "apply_event st (SetFormData fd) = st\<lparr>formData := fd\<rparr>"
| "apply_event st (SetPreviewUrl p) = st\<lparr>previewUrl := p\<rparr>"
| "apply_event st _ = st"

definition run :: "page_state \<Rightarrow> event list \<Rightarrow> page_state" where
  "run st evs = foldl apply_event st evs"

section \<open>\<open>utils/suiTransfer.js\<close>\<close>

text \<open>
  The file holds two listings of \<open>handleSuiPayment\<close> that differ only in the value of
  \<open>FUND_RECEIVER_ADDRESS\<close>; the first listing is the one modelled.
\<close>

definition FUND_RECEIVER_ADDRESS :: string where
  "FUND_RECEIVER_ADDRESS = ''0xc4000ea0fd3244857575799ef4f8164c7b42d1c5bf840cfd54030f608b07556d''"

definition SUI_AMOUNT :: int where
  "SUI_AMOUNT = 1000000000"

record receipt =
  digest :: string
  status :: string
  amount :: int
  receiver :: string

text \<open>The \<open>catch\<close> block of \<open>handleSuiPayment\<close>: the value it throws.\<close>

definition payment_catch :: "js_error \<Rightarrow> js_error" where
  "payment_catch error =
     (if message_lower_includes error ''insufficient''
        then Error (Some ''Insufficient SUI balance'')
      else if message_lower_includes error ''reject''
        then Error (Some ''User rejected the transaction'')
      else error)"

text \<open>
  The \<open>try\<close> block up to the signer call: the transaction block and the request
  handed to the signer.
\<close>

definition payment_request :: sign_request where
  "payment_request =
     (let txb = [];
          (txb, result) = splitCoins txb GasCoin [Pure (PureBigInt SUI_AMOUNT)];
          coin = NestedResult result 0;
          txb = transferObjects txb [coin] (Pure (PureString FUND_RECEIVER_ADDRESS))
      in \<lparr>transactionBlock = txb, options = \<lparr>showEvents = True\<rparr>\<rparr>)"

definition handleSuiPayment :: "signer option \<Rightarrow> event list \<times> (js_error + receipt)" where
  "handleSuiPayment signAndExecute =
     (case signAndExecute of
        None \<Rightarrow> ([], Inl (Error (Some ''Wallet not connected'')))
      | Some sign \<Rightarrow>
          (case sign payment_request of
             Inl error \<Rightarrow>
               ([SignAndExecute payment_request, ConsoleError ''Payment error:'' error],
                Inl (payment_catch error))
           | Inr response \<Rightarrow>
               ([SignAndExecute payment_request],
                Inr \<lparr>digest = tx_digest response, status = ''success'',
                     amount = SUI_AMOUNT, receiver = FUND_RECEIVER_ADDRESS\<rparr>)))"

section \<open>\<open>Pages/AgentPage.jsx\<close>\<close>

definition MAX_IMAGE_SIZE :: nat where
  "MAX_IMAGE_SIZE = 5 * 1024 * 1024"

text \<open>
  \<open>handleImageUpload\<close>: \<open>files\<close> is \<open>e.target.files\<close>, \<open>read\<close> is what the
  \<open>FileReader\<close> holds in \<open>reader.result\<close> when \<open>onloadend\<close> fires (\<open>null\<close> when the
  read failed).
\<close>

definition handleImageUpload ::
  "(js_file \<Rightarrow> string option) \<Rightarrow> page_state \<Rightarrow> js_file list \<Rightarrow> event list" where
  "handleImageUpload read st files =
     (case files of
        [] \<Rightarrow> []
      | f # _ \<Rightarrow>
          if file_size f > MAX_IMAGE_SIZE then [ToastError ''Image size should be less than 5MB'']
          else if \<not> startsWith (file_type f) ''image/'' then [ToastError ''Please upload an image file'']
          else [SetFormData ((formData st)\<lparr>profilePicture := Some f\<rparr>),
                ReadAsDataURL f,
                SetPreviewUrl (read f)])"

text \<open>
  The surroundings of one run of \<open>handleSubmit\<close>: the wallet hook, the button the user
  presses in the confirmation toast, the backend's answer to the POST, and \<open>BACKEND_URL\<close>
  (imported from \<open>../config\<close>).
\<close>

datatype user_choice = Confirm | Cancel

record env =
  useWallet :: wallet
  choice :: user_choice
  axios_post :: "post_request \<Rightarrow> js_error + http_response"
  BACKEND_URL :: string

text \<open>The promise built around the confirmation toast: \<open>resolve(true)\<close> or \<open>reject(...)\<close>.\<close>

fun confirmation :: "user_choice \<Rightarrow> js_error + bool" where
  "confirmation Confirm = Inr True"
| "confirmation Cancel = Inl (Error (Some ''Payment cancelled''))"

definition empty_form :: form_data where
  "empty_form = \<lparr>name = '''', twitter = '''', website = '''', description = '''',
                 profilePicture = None\<rparr>"

definition submitData :: "form_data \<Rightarrow> string \<Rightarrow> string \<Rightarrow> FormData" where
  "submitData fd creator payment_tx =
     [(''name'', Text (name fd)),
      (''twitter'', Text (twitter fd)),
      (''website'', Text (website fd)),
      (''description'', Text (description fd)),
      (''creator_wallet'', Text creator),
      (''payment_tx'', Text payment_tx)]
     @ (case profilePicture fd of None \<Rightarrow> [] | Some f \<Rightarrow> [(''profilePicture'', Blob f)])"

definition proposal_request :: "env \<Rightarrow> form_data \<Rightarrow> string \<Rightarrow> string \<Rightarrow> post_request" where
  "proposal_request e fd creator payment_tx =
     \<lparr>url = BACKEND_URL e @ ''/api/proposals'',
      body = submitData fd creator payment_tx,
      headers = [(''Content-Type'', ''multipart/form-data'')]\<rparr>"

text \<open>
  The part of the \<open>try\<close> block after a returned payment: the status guard, the POST and
  the reset. The second component is the error thrown, if any.
\<close>

definition submit_proposal :: "env \<Rightarrow> page_state \<Rightarrow> receipt \<Rightarrow> event list \<times> js_error option" where
  "submit_proposal e st paymentResult =
     (if status paymentResult = ''success'' then
        (case account (useWallet e) of
           None \<Rightarrow>
             ([ToastSuccess ''Payment successful!'', ToastLoading ''Submitting proposal...''],
              Some (Error (Some ''Cannot read properties of null (reading address)'')))
         | Some acct \<Rightarrow>
             let request = proposal_request e (formData st) (address acct) (digest paymentResult)
             in (case axios_post e request of
                   Inl error \<Rightarrow>
                     ([ToastSuccess ''Payment successful!'', ToastLoading ''Submitting proposal...'',
                       HttpPost request],
                      Some error)
                 | Inr response \<Rightarrow>
                     ([ToastSuccess ''Payment successful!'', ToastLoading ''Submitting proposal...'',
                       HttpPost request,
                       ToastSuccess ''Proposal submitted successfully!'',
                       SetFormData empty_form,
                       SetPreviewUrl None,
                       Navigate ''/''],
                      None)))
      else ([], None))"

text \<open>
  The \<open>try\<close> block. \<open>toast.promise(promise, msgs)\<close> shows its loading toast at once and
  hooks \<open>promise.then(...).catch(...)\<close> on the promise before \<open>await\<close> hooks the rest of
  \<open>handleSubmit\<close> on it. When the promise resolves, the success toast is therefore shown
  before \<open>handleSubmit\<close> goes on. When it rejects, the rejection first passes through the
  \<open>then\<close> link, so the error toast is shown one microtask after the rest of
  \<open>handleSubmit\<close>, which on that path runs its \<open>catch\<close> and \<open>finally\<close> blocks to the
  end without another \<open>await\<close>. The result is the events of the block, the error thrown
  if any, and the events that come after the \<open>finally\<close> block.
\<close>

definition try_block :: "env \<Rightarrow> page_state \<Rightarrow> event list \<times> js_error option \<times> event list" where
  "try_block e st =
     (case confirmation (choice e) of
        Inl error \<Rightarrow>
          ([ToastConfirm ''Please confirm payment of 1 SUI to submit proposal'',
            ToastLoading ''Awaiting confirmation...'',
            ToastDismiss],
           Some error,
           [ToastError ''Payment cancelled''])
      | Inr confirmPayment \<Rightarrow>
          let prompt = [ToastConfirm ''Please confirm payment of 1 SUI to submit proposal'',
                        ToastLoading ''Awaiting confirmation...'',
                        ToastDismiss,
                        ToastSuccess ''Payment confirmed!'']
          in if \<not> confirmPayment then (prompt, None, [])
             else
               (case handleSuiPayment (signAndExecuteTransactionBlock (useWallet e)) of
                  (pay, Inl error) \<Rightarrow>
                    (prompt @ [ToastLoading ''Processing payment...''] @ pay, Some error, [])
                | (pay, Inr paymentResult) \<Rightarrow>
                    let (sub, thrown) = submit_proposal e st paymentResult
                    in (prompt @ [ToastLoading ''Processing payment...''] @ pay @ sub, thrown, [])))"

text \<open>The \<open>catch\<close> block.\<close>

definition catch_block :: "js_error \<Rightarrow> event list" where
  "catch_block error =
     [ConsoleError ''Error:'' error,
      if message_includes error ''Payment cancelled'' then ToastError ''Payment cancelled by user''
      else if message_includes error ''User rejected'' then ToastError ''Transaction rejected by user''
      else if message_includes error ''Insufficient'' then ToastError ''Insufficient SUI balance''
      else ToastError (case message error of
                         None \<Rightarrow> ''Transaction failed. Please try again.''
                       | Some m \<Rightarrow> if m = [] then ''Transaction failed. Please try again.'' else m)]"

definition handleSubmit :: "env \<Rightarrow> page_state \<Rightarrow> event list" where
  "handleSubmit e st =
     PreventDefault #
     (if \<not> connected (useWallet e) \<or> account (useWallet e) = None
        then [ToastError ''Please connect your wallet first!'']
      else if signAndExecuteTransactionBlock (useWallet e) = None
        then [ToastError ''Wallet connection not initialized properly'']
      else if name (formData st) = [] \<or> twitter (formData st) = [] \<or> description (formData st) = []
        then [ToastError ''Please fill in all required fields (Name, Twitter, Description)'']
      else
        SetLoading True #
        (case try_block e st of
           (evs, None, late) \<Rightarrow> evs @ [SetLoading False] @ late
         | (evs, Some error, late) \<Rightarrow> evs @ catch_block error @ [SetLoading False] @ late))"

text \<open>The \<open>disabled\<close> attribute of the submit button.\<close>

definition submit_disabled :: "wallet \<Rightarrow> page_state \<Rightarrow> bool" where
  "submit_disabled w st = (loading st \<or> \<not> connected w)"

section \<open>The page as a transition system\<close>

text \<open>
  \<open>handleSubmit\<close> gives control back to the event loop at the three awaits of promises that
  settle later: after \<open>toast.promise\<close> has shown \<open>Awaiting confirmation...\<close> (line 73),
  after the signer has been called (line 19 of \<open>suiTransfer.js\<close>, awaited through line 112)
  and after \<open>axios.post\<close> has been called (line 131). Between two such points the code
  runs to completion: an \<open>await\<close> of a settled promise goes on in a microtask, before any
  other event of the page. \<open>split_awaits\<close> cuts a log after each of these events.
\<close>

definition suspends :: "event \<Rightarrow> bool" where
  "suspends ev =
     (case ev of
        ToastLoading m \<Rightarrow> m = ''Awaiting confirmation...''
      | SignAndExecute request \<Rightarrow> True
      | HttpPost request \<Rightarrow> True
      | _ \<Rightarrow> False)"

fun split_awaits :: "event list \<Rightarrow> event list list" where
  "split_awaits [] = [[]]"
| "split_awaits (ev # evs) =
     (if suspends ev then [ev] # split_awaits evs
      else (case split_awaits evs of [] \<Rightarrow> [[ev]] | seg # segs \<Rightarrow> (ev # seg) # segs))"

text \<open>The \<open>onChange\<close> handlers of the four text inputs: \<open>setFormData({...formData, k: v})\<close>.\<close>

datatype field = Name | Twitter | Website | Description

fun change_field :: "form_data \<Rightarrow> field \<Rightarrow> string \<Rightarrow> form_data" where
  "change_field fd Name v = fd\<lparr>name := v\<rparr>"
| "change_field fd Twitter v = fd\<lparr>twitter := v\<rparr>"
| "change_field fd Website v = fd\<lparr>website := v\<rparr>"
| "change_field fd Description v = fd\<lparr>description := v\<rparr>"

text \<open>
  The page holds its state and the runs of \<open>handleSubmit\<close> that are suspended, each as the
  segments it has still to issue. The form (line 170) calls \<open>handleSubmit\<close> on its submit
  event, and its only submit button (lines 242 to 248) carries
  \<open>disabled={loading || !connected}\<close>: a disabled submit button is not activated and stops
  implicit submission, so the event fires only while that expression is false. \<open>Submit e\<close>
  is the user submitting the form with the surroundings \<open>e\<close>; it starts a run however many
  runs are suspended. \<open>Resume i\<close> is the awaited promise of the suspended run \<open>i\<close>
  settling. \<open>Change f v\<close> is the user typing in a text input. State setters take effect at
  once.
\<close>

record page_config =
  page :: page_state
  running :: "event list list list"

datatype ui_action = Submit env | Resume nat | Change field string

definition page_step :: "page_config \<Rightarrow> ui_action \<Rightarrow> page_config" where
  "page_step c a =
     (case a of
        Submit e \<Rightarrow>
          if submit_disabled (useWallet e) (page c) then c
          else (case split_awaits (handleSubmit e (page c)) of
                  [] \<Rightarrow> c
                | seg # rest \<Rightarrow>
                    \<lparr>page = run (page c) seg,
                     running = running c @ (if rest = [] then [] else [rest])\<rparr>)
      | Resume i \<Rightarrow>
          if i < length (running c) then
            (case running c ! i of
               [] \<Rightarrow> c\<lparr>running := take i (running c) @ drop (Suc i) (running c)\<rparr>
             | seg # rest \<Rightarrow>
                 \<lparr>page = run (page c) seg,
                  running = take i (running c) @ (if rest = [] then [] else [rest])
                            @ drop (Suc i) (running c)\<rparr>)
          else c
      | Change f v \<Rightarrow>
          c\<lparr>page := (page c)\<lparr>formData := change_field (formData (page c)) f v\<rparr>\<rparr>)"

definition page_run :: "page_state \<Rightarrow> ui_action list \<Rightarrow> page_config" where
  "page_run st acts = foldl page_step \<lparr>page = st, running = []\<rparr> acts"

section \<open>Reading the event log\<close>

text \<open>
  The three guards at the head of \<open>handleSubmit\<close>, all passed; and the projections of
  an event log on the calls of one kind.
\<close>

definition preconditions_hold :: "env \<Rightarrow> page_state \<Rightarrow> bool" where
  "preconditions_hold e st =
     (connected (useWallet e) \<and> account (useWallet e) \<noteq> None
      \<and> signAndExecuteTransactionBlock (useWallet e) \<noteq> None
      \<and> name (formData st) \<noteq> [] \<and> twitter (formData st) \<noteq> [] \<and> description (formData st) \<noteq> [])"

definition sign_calls :: "event list \<Rightarrow> sign_request list" where
  "sign_calls evs = concat (map (\<lambda>ev. case ev of SignAndExecute r \<Rightarrow> [r] | _ \<Rightarrow> []) evs)"

definition post_calls :: "event list \<Rightarrow> post_request list" where
  "post_calls evs = concat (map (\<lambda>ev. case ev of HttpPost r \<Rightarrow> [r] | _ \<Rightarrow> []) evs)"

definition prompts :: "event list \<Rightarrow> string list" where
  "prompts evs = concat (map (\<lambda>ev. case ev of ToastConfirm m \<Rightarrow> [m] | _ \<Rightarrow> []) evs)"

definition navigations :: "event list \<Rightarrow> string list" where
  "navigations evs = concat (map (\<lambda>ev. case ev of Navigate p \<Rightarrow> [p] | _ \<Rightarrow> []) evs)"

definition confirm_prompt :: "event list" where
  "confirm_prompt = [ToastConfirm ''Please confirm payment of 1 SUI to submit proposal'',
                     ToastLoading ''Awaiting confirmation...'', ToastDismiss]"

definition loading_updates :: "event list \<Rightarrow> bool list" where
  "loading_updates evs = concat (map (\<lambda>ev. case ev of SetLoading b \<Rightarrow> [b] | _ \<Rightarrow> []) evs)"

definition form_updates :: "event list \<Rightarrow> form_data list" where
  "form_updates evs = concat (map (\<lambda>ev. case ev of SetFormData fd \<Rightarrow> [fd] | _ \<Rightarrow> []) evs)"

definition preview_updates :: "event list \<Rightarrow> string option list" where
  "preview_updates evs = concat (map (\<lambda>ev. case ev of SetPreviewUrl p \<Rightarrow> [p] | _ \<Rightarrow> []) evs)"

text \<open>
  What holds of the segments a suspended run has still to issue, and of the page between two
  events.
\<close>

definition pending_ok :: "event list list \<Rightarrow> bool" where
  "pending_ok segs =
     (segs \<noteq> [] \<and> loading_updates (concat (butlast segs)) = []
      \<and> loading_updates (last segs) = [False])"

definition page_inv :: "page_config \<Rightarrow> bool" where
  "page_inv c =
     (if running c = [] then \<not> loading (page c)
      else loading (page c) \<and> (\<exists>segs. running c = [segs] \<and> pending_ok segs))"

section \<open>A concrete run\<close>

definition example_wallet :: wallet where
  "example_wallet =
     \<lparr>signAndExecuteTransactionBlock = Some (\<lambda>request. Inr \<lparr>tx_digest = ''0xabc''\<rparr>),
      connected = True,
      account = Some \<lparr>address = ''0x1''\<rparr>\<rparr>"

definition example_env :: env where
  "example_env =
     \<lparr>useWallet = example_wallet, choice = Confirm,
      axios_post = (\<lambda>request. Inr \<lparr>http_status = 200\<rparr>),
      BACKEND_URL = ''http://localhost:3000''\<rparr>"

definition example_state :: page_state where
  "example_state =
     \<lparr>loading = False,
      formData = \<lparr>name = ''Bot'', twitter = ''@bot'', website = '''', description = ''desc'',
                  profilePicture = None\<rparr>,
      previewUrl = None\<rparr>"

definition example_receipt :: receipt where
  "example_receipt = \<lparr>digest = ''0xabc'', status = ''success'', amount = 1000000000,
     receiver = ''0xc4000ea0fd3244857575799ef4f8164c7b42d1c5bf840cfd54030f608b07556d''\<rparr>"

definition example_request :: post_request where
  "example_request =
     \<lparr>url = ''http://localhost:3000/api/proposals'',
      body = [(''name'', Text ''Bot''), (''twitter'', Text ''@bot''), (''website'', Text ''''),
              (''description'', Text ''desc''), (''creator_wallet'', Text ''0x1''),
              (''payment_tx'', Text ''0xabc'')],
      headers = [(''Content-Type'', ''multipart/form-data'')]\<rparr>"

definition example_image :: js_file where
  "example_image = \<lparr>file_name = ''bot.png'', file_size = 5242880, file_type = ''image/png''\<rparr>"

section \<open>String methods\<close>

lemma startsWith_iff: "startsWith s n \<longleftrightarrow> (\<exists>t. s = n @ t)"
  by (induction s n rule: startsWith.induct) auto

lemma js_includes_iff: "js_includes s n \<longleftrightarrow> (\<exists>p t. s = p @ n @ t)"
proof (induction s)
  case Nil
  then show ?case by simp
next
  case (Cons x xs)
  show ?case
  proof
    assume "js_includes (x # xs) n"
    then consider "startsWith (x # xs) n" | "js_includes xs n" by auto
    then show "\<exists>p t. x # xs = p @ n @ t"
    proof cases
      case 1
      then obtain t where "x # xs = n @ t" by (auto simp: startsWith_iff)
      then have "x # xs = [] @ n @ t" by simp
      then show ?thesis by blast
    next
      case 2
      then obtain p t where "xs = p @ n @ t" using Cons.IH by blast
      then have "x # xs = (x # p) @ n @ t" by simp
      then show ?thesis by blast
    qed
  next
    assume "\<exists>p t. x # xs = p @ n @ t"
    then obtain p t where eq: "x # xs = p @ n @ t" by blast
    show "js_includes (x # xs) n"
    proof (cases p)
      case Nil
      with eq have "startsWith (x # xs) n" by (auto simp: startsWith_iff)
      then show ?thesis by simp
    next
      case (Cons y ys)
      with eq have "xs = ys @ n @ t" by simp
      then have "js_includes xs n" using Cons.IH by blast
      then show ?thesis by simp
    qed
  qed
qed

lemma toLowerCase_append: "toLowerCase (a @ b) = toLowerCase a @ toLowerCase b"
  by (simp add: toLowerCase_def)

lemma js_includes_toLowerCase_iff:
  "js_includes (toLowerCase m) n \<longleftrightarrow> (\<exists>p w t. m = p @ w @ t \<and> toLowerCase w = n)"
proof
  assume "js_includes (toLowerCase m) n"
  then obtain p' t' where "map toLowerCaseChar m = p' @ n @ t'"
    by (auto simp: js_includes_iff toLowerCase_def)
  then have "\<exists>us vs. m = us @ vs \<and> p' = map toLowerCaseChar us \<and> n @ t' = map toLowerCaseChar vs"
    by (simp only: map_eq_append_conv)
  then obtain p r where m: "m = p @ r" and r: "n @ t' = map toLowerCaseChar r"
    by blast
  from r have "\<exists>us vs. r = us @ vs \<and> n = map toLowerCaseChar us \<and> t' = map toLowerCaseChar vs"
    by (simp only: append_eq_map_conv)
  then obtain w t where "r = w @ t" and "n = map toLowerCaseChar w"
    by blast
  with m show "\<exists>p w t. m = p @ w @ t \<and> toLowerCase w = n"
    by (auto simp: toLowerCase_def)
next
  assume "\<exists>p w t. m = p @ w @ t \<and> toLowerCase w = n"
  then obtain p w t where "m = p @ w @ t" and "toLowerCase w = n"
    by blast
  then have "toLowerCase m = toLowerCase p @ n @ toLowerCase t"
    by (simp add: toLowerCase_append)
  then show "js_includes (toLowerCase m) n"
    unfolding js_includes_iff by blast
qed

lemma payment_request_eq:
  "payment_request =
     \<lparr>transactionBlock =
        [SplitCoins GasCoin [Pure (PureBigInt 1000000000)],
         TransferObjects [NestedResult 0 0]
           (Pure (PureString ''0xc4000ea0fd3244857575799ef4f8164c7b42d1c5bf840cfd54030f608b07556d''))],
      options = \<lparr>showEvents = True\<rparr>\<rparr>"
  by (simp add: payment_request_def splitCoins_def transferObjects_def SUI_AMOUNT_def
      FUND_RECEIVER_ADDRESS_def)

lemma lower_example: "toLowerCase ''User REJECTED: Insufficient gas'' = ''user rejected: insufficient gas''"
  by code_simp

lemma includes_example: "js_includes ''user rejected: insufficient gas'' ''insufficient''"
  by code_simp

section \<open>The shape of the event log\<close>

lemma handleSubmit_invalid:
  assumes "\<not> preconditions_hold e st"
  shows "\<exists>msg \<in> {''Please connect your wallet first!'', ''Wallet connection not initialized properly'',
            ''Please fill in all required fields (Name, Twitter, Description)''}.
         handleSubmit e st = [PreventDefault, ToastError msg]"
  using assms by (auto simp: preconditions_hold_def handleSubmit_def)

lemma handleSubmit_valid:
  assumes "preconditions_hold e st"
  shows "handleSubmit e st =
     PreventDefault # SetLoading True #
       (case try_block e st of
          (evs, None, late) \<Rightarrow> evs @ [SetLoading False] @ late
        | (evs, Some error, late) \<Rightarrow> evs @ catch_block error @ [SetLoading False] @ late)"
  using assms by (auto simp: preconditions_hold_def handleSubmit_def)

lemma catch_block_shape: "\<exists>msg. catch_block error = [ConsoleError ''Error:'' error, ToastError msg]"
  by (simp add: catch_block_def)

lemma try_block_cancel:
  assumes "choice e = Cancel"
  shows "try_block e st =
     (confirm_prompt, Some (Error (Some ''Payment cancelled'')), [ToastError ''Payment cancelled''])"
  using assms by (simp add: try_block_def confirm_prompt_def)

lemma try_block_payment_failed:
  assumes "choice e = Confirm"
      and "handleSuiPayment (signAndExecuteTransactionBlock (useWallet e)) = (pay, Inl error)"
  shows "try_block e st =
     (confirm_prompt @ [ToastSuccess ''Payment confirmed!'', ToastLoading ''Processing payment...''] @ pay,
      Some error, [])"
  using assms by (simp add: try_block_def confirm_prompt_def)

lemma try_block_paid:
  assumes "choice e = Confirm"
      and "handleSuiPayment (signAndExecuteTransactionBlock (useWallet e)) = (pay, Inr r)"
  shows "try_block e st =
     (confirm_prompt @ [ToastSuccess ''Payment confirmed!'', ToastLoading ''Processing payment...''] @ pay
        @ fst (submit_proposal e st r),
      snd (submit_proposal e st r), [])"
  using assms by (simp add: try_block_def confirm_prompt_def split: prod.splits)

lemma handleSuiPayment_cases:
  "handleSuiPayment sg = (pay, res) \<Longrightarrow>
     (sg = None \<and> pay = [] \<and> res = Inl (Error (Some ''Wallet not connected'')))
   \<or> (\<exists>sign error. sg = Some sign \<and> sign payment_request = Inl error
         \<and> pay = [SignAndExecute payment_request, ConsoleError ''Payment error:'' error]
         \<and> res = Inl (payment_catch error))
   \<or> (\<exists>sign response. sg = Some sign \<and> sign payment_request = Inr response
         \<and> pay = [SignAndExecute payment_request]
         \<and> res = Inr \<lparr>digest = tx_digest response, status = ''success'',
                      amount = SUI_AMOUNT, receiver = FUND_RECEIVER_ADDRESS\<rparr>)"
  by (auto simp: handleSuiPayment_def split: option.splits sum.splits)

lemma submit_proposal_posted:
  assumes "status r = ''success''" and "account (useWallet e) = Some acct"
      and "axios_post e (proposal_request e (formData st) (address acct) (digest r)) = Inr response"
  shows "submit_proposal e st r =
     ([ToastSuccess ''Payment successful!'', ToastLoading ''Submitting proposal...'',
       HttpPost (proposal_request e (formData st) (address acct) (digest r)),
       ToastSuccess ''Proposal submitted successfully!'',
       SetFormData empty_form, SetPreviewUrl None, Navigate ''/''], None)"
  using assms by (simp add: submit_proposal_def)

lemma submit_proposal_post_failed:
  assumes "status r = ''success''" and "account (useWallet e) = Some acct"
      and "axios_post e (proposal_request e (formData st) (address acct) (digest r)) = Inl error"
  shows "submit_proposal e st r =
     ([ToastSuccess ''Payment successful!'', ToastLoading ''Submitting proposal...'',
       HttpPost (proposal_request e (formData st) (address acct) (digest r))], Some error)"
  using assms by (simp add: submit_proposal_def)

lemma post_calls_mem: "HttpPost req \<in> set evs \<longleftrightarrow> req \<in> set (post_calls evs)"
  by (induction evs) (auto simp: post_calls_def split: event.splits)

lemma sign_calls_mem: "SignAndExecute req \<in> set evs \<longleftrightarrow> req \<in> set (sign_calls evs)"
  by (induction evs) (auto simp: sign_calls_def split: event.splits)

lemma post_calls_catch_block [simp]: "post_calls (catch_block error) = []"
  by (simp add: catch_block_def post_calls_def)

lemma sign_calls_catch_block [simp]: "sign_calls (catch_block error) = []"
  by (simp add: catch_block_def sign_calls_def)

lemma post_calls_append [simp]: "post_calls (a @ b) = post_calls a @ post_calls b"
  by (simp add: post_calls_def)

lemma sign_calls_append [simp]: "sign_calls (a @ b) = sign_calls a @ sign_calls b"
  by (simp add: sign_calls_def)

lemma post_calls_Cons [simp]:
  "post_calls (ev # evs) = (case ev of HttpPost r \<Rightarrow> [r] | _ \<Rightarrow> []) @ post_calls evs"
  by (simp add: post_calls_def)

lemma sign_calls_Cons [simp]:
  "sign_calls (ev # evs) = (case ev of SignAndExecute r \<Rightarrow> [r] | _ \<Rightarrow> []) @ sign_calls evs"
  by (simp add: sign_calls_def)

lemma post_calls_Nil [simp]: "post_calls [] = []"
  by (simp add: post_calls_def)

lemma sign_calls_Nil [simp]: "sign_calls [] = []"
  by (simp add: sign_calls_def)

lemma post_calls_payment: "handleSuiPayment sg = (pay, res) \<Longrightarrow> post_calls pay = []"
  by (drule handleSuiPayment_cases) auto

lemma handleSubmit_cancelled:
  assumes "preconditions_hold e st" and "choice e = Cancel"
  shows "handleSubmit e st =
     PreventDefault # SetLoading True # confirm_prompt
       @ [ConsoleError ''Error:'' (Error (Some ''Payment cancelled'')),
          ToastError ''Payment cancelled by user'',
          SetLoading False,
          ToastError ''Payment cancelled'']"
proof -
  have "js_includes ''Payment cancelled'' ''Payment cancelled''"
    by simp
  then have "catch_block (Error (Some ''Payment cancelled'')) =
      [ConsoleError ''Error:'' (Error (Some ''Payment cancelled'')),
       ToastError ''Payment cancelled by user'']"
    by (simp add: catch_block_def message_includes_def)
  then show ?thesis
    using assms by (simp add: handleSubmit_valid try_block_cancel)
qed

lemma handleSubmit_payment_failed:
  assumes "preconditions_hold e st" and "choice e = Confirm"
      and "handleSuiPayment (signAndExecuteTransactionBlock (useWallet e)) = (pay, Inl error)"
  shows "handleSubmit e st =
     PreventDefault # SetLoading True # confirm_prompt
       @ [ToastSuccess ''Payment confirmed!'', ToastLoading ''Processing payment...''] @ pay
       @ catch_block error @ [SetLoading False]"
  using assms by (simp add: handleSubmit_valid try_block_payment_failed)

lemma handleSubmit_paid:
  assumes "preconditions_hold e st" and "choice e = Confirm"
      and "handleSuiPayment (signAndExecuteTransactionBlock (useWallet e)) = (pay, Inr r)"
      and "account (useWallet e) = Some acct"
  shows "handleSubmit e st =
     PreventDefault # SetLoading True # confirm_prompt
       @ [ToastSuccess ''Payment confirmed!'', ToastLoading ''Processing payment...''] @ pay
       @ [ToastSuccess ''Payment successful!'', ToastLoading ''Submitting proposal...'',
          HttpPost (proposal_request e (formData st) (address acct) (digest r))]
       @ (case axios_post e (proposal_request e (formData st) (address acct) (digest r)) of
            Inl error \<Rightarrow> catch_block error
          | Inr response \<Rightarrow>
              [ToastSuccess ''Proposal submitted successfully!'',
               SetFormData empty_form, SetPreviewUrl None, Navigate ''/''])
       @ [SetLoading False]"
proof -
  from assms(3) have s: "status r = ''success''"
    by (auto dest!: handleSuiPayment_cases)
  show ?thesis
  proof (cases "axios_post e (proposal_request e (formData st) (address acct) (digest r))")
    case (Inl error)
    with assms s show ?thesis
      by (simp add: handleSubmit_valid try_block_paid submit_proposal_post_failed)
  next
    case (Inr response)
    with assms s show ?thesis
      by (simp add: handleSubmit_valid try_block_paid submit_proposal_posted)
  qed
qed

lemma confirm_prompt_calls [simp]: "post_calls confirm_prompt = []" "sign_calls confirm_prompt = []"
  by (simp_all add: confirm_prompt_def)

lemma example_preconditions: "preconditions_hold example_env example_state"
  by (simp add: preconditions_hold_def example_env_def example_wallet_def example_state_def)

lemma example_payment:
  "handleSuiPayment (signAndExecuteTransactionBlock (useWallet example_env)) =
     ([SignAndExecute payment_request], Inr example_receipt)"
  by (simp add: handleSuiPayment_def example_env_def example_wallet_def example_receipt_def
      SUI_AMOUNT_def FUND_RECEIVER_ADDRESS_def)

lemma example_proposal_request:
  "proposal_request example_env (formData example_state) ''0x1'' ''0xabc'' = example_request"
  by (simp add: proposal_request_def submitData_def example_env_def example_state_def
      example_request_def)

lemma example_log:
  "handleSubmit example_env example_state =
     [PreventDefault, SetLoading True,
      ToastConfirm ''Please confirm payment of 1 SUI to submit proposal'',
      ToastLoading ''Awaiting confirmation...'', ToastDismiss,
      ToastSuccess ''Payment confirmed!'', ToastLoading ''Processing payment...'',
      SignAndExecute payment_request,
      ToastSuccess ''Payment successful!'', ToastLoading ''Submitting proposal...'',
      HttpPost example_request,
      ToastSuccess ''Proposal submitted successfully!'',
      SetFormData empty_form, SetPreviewUrl None, Navigate ''/'',
      SetLoading False]"
proof -
  have acct: "account (useWallet example_env) = Some \<lparr>address = ''0x1''\<rparr>"
    by (simp add: example_env_def example_wallet_def)
  have ch: "choice example_env = Confirm"
    by (simp add: example_env_def)
  have post: "axios_post example_env example_request = Inr \<lparr>http_status = 200\<rparr>"
    by (simp add: example_env_def)
  have dig: "digest example_receipt = ''0xabc''"
    by (simp add: example_receipt_def)
  show ?thesis
    using handleSubmit_paid [OF example_preconditions ch example_payment acct]
    by (simp add: dig example_proposal_request post confirm_prompt_def)
qed

lemma run_append [simp]: "run st (a @ b) = run (run st a) b"
  by (simp add: run_def)

lemma run_Cons [simp]: "run st (ev # evs) = run (apply_event st ev) evs"
  by (simp add: run_def)

lemma run_Nil [simp]: "run st [] = st"
  by (simp add: run_def)

lemma run_catch_block [simp]: "run st (catch_block error) = st"
  using catch_block_shape [of error] by auto

lemma run_confirm_prompt [simp]: "run st confirm_prompt = st"
  by (simp add: confirm_prompt_def)

lemma navigations_simps [simp]:
  "navigations [] = []"
  "navigations (ev # evs) = (case ev of Navigate p \<Rightarrow> [p] | _ \<Rightarrow> []) @ navigations evs"
  "navigations (a @ b) = navigations a @ navigations b"
  by (simp_all add: navigations_def)

lemma navigations_catch_block [simp]: "navigations (catch_block error) = []"
  using catch_block_shape [of error] by auto

lemma navigations_confirm_prompt [simp]: "navigations confirm_prompt = []"
  by (simp add: confirm_prompt_def)

lemma handleSuiPayment_resolved:
  assumes "sign payment_request = Inr response"
  shows "handleSuiPayment (Some sign) =
     ([SignAndExecute payment_request],
      Inr \<lparr>digest = tx_digest response, status = ''success'',
           amount = SUI_AMOUNT, receiver = FUND_RECEIVER_ADDRESS\<rparr>)"
  using assms by (simp add: handleSuiPayment_def)

lemma loading_updates_simps [simp]:
  "loading_updates [] = []"
  "loading_updates (ev # evs) = (case ev of SetLoading b \<Rightarrow> [b] | _ \<Rightarrow> []) @ loading_updates evs"
  "loading_updates (a @ b) = loading_updates a @ loading_updates b"
  by (simp_all add: loading_updates_def)

lemma loading_unchanged: "loading_updates evs = [] \<Longrightarrow> loading (run st evs) = loading st"
  by (induction evs arbitrary: st) (auto split: event.splits)

lemma loading_updates_take: "loading_updates evs = [] \<Longrightarrow> loading_updates (take k evs) = []"
proof (induction evs arbitrary: k)
  case Nil
  then show ?case by simp
next
  case (Cons ev evs)
  then show ?case by (cases k) (auto split: event.splits)
qed

lemma loading_updates_catch_block [simp]: "loading_updates (catch_block error) = []"
  using catch_block_shape [of error] by auto

lemma loading_updates_confirm_prompt [simp]: "loading_updates confirm_prompt = []"
  by (simp add: confirm_prompt_def)

lemma loading_updates_payment: "handleSuiPayment sg = (pay, res) \<Longrightarrow> loading_updates pay = []"
  by (drule handleSuiPayment_cases) auto

lemma handleSubmit_brackets_loading:
  assumes "preconditions_hold e st"
  shows "\<exists>mid late. handleSubmit e st =
             [PreventDefault, SetLoading True,
              ToastConfirm ''Please confirm payment of 1 SUI to submit proposal'',
              ToastLoading ''Awaiting confirmation...''] @ mid @ SetLoading False # late
           \<and> loading_updates mid = []
           \<and> (late = [] \<or> late = [ToastError ''Payment cancelled''])"
proof -
  obtain acct where acct: "account (useWallet e) = Some acct"
    using assms by (auto simp: preconditions_hold_def)
  obtain pay res where hp: "handleSuiPayment (signAndExecuteTransactionBlock (useWallet e)) = (pay, res)"
    by (cases "handleSuiPayment (signAndExecuteTransactionBlock (useWallet e))")
  note lp = loading_updates_payment [OF hp]
  show ?thesis
  proof (cases "choice e")
    case Cancel
    let ?mid = "[ToastDismiss,
          ConsoleError ''Error:'' (Error (Some ''Payment cancelled'')),
          ToastError ''Payment cancelled by user'']"
    have "loading_updates ?mid = []"
      by simp
    moreover have "handleSubmit e st =
        [PreventDefault, SetLoading True,
         ToastConfirm ''Please confirm payment of 1 SUI to submit proposal'',
         ToastLoading ''Awaiting confirmation...''] @ ?mid
          @ SetLoading False # [ToastError ''Payment cancelled'']"
      using handleSubmit_cancelled [OF assms Cancel] by (simp add: confirm_prompt_def)
    ultimately show ?thesis
      by blast
  next
    case Confirm
    show ?thesis
    proof (cases res)
      case (Inl error)
      let ?mid = "[ToastDismiss, ToastSuccess ''Payment confirmed!'',
                   ToastLoading ''Processing payment...''] @ pay @ catch_block error"
      have "loading_updates ?mid = []"
        using lp by simp
      moreover have "handleSubmit e st =
          [PreventDefault, SetLoading True,
           ToastConfirm ''Please confirm payment of 1 SUI to submit proposal'',
           ToastLoading ''Awaiting confirmation...''] @ ?mid @ SetLoading False # []"
        using handleSubmit_payment_failed [OF assms Confirm hp [unfolded Inl]]
        by (simp add: confirm_prompt_def)
      ultimately show ?thesis
        by blast
    next
      case (Inr r)
      let ?tail = "case axios_post e (proposal_request e (formData st) (address acct) (digest r)) of
            Inl error \<Rightarrow> catch_block error
          | Inr response \<Rightarrow>
              [ToastSuccess ''Proposal submitted successfully!'',
               SetFormData empty_form, SetPreviewUrl None, Navigate ''/'']"
      let ?mid = "[ToastDismiss, ToastSuccess ''Payment confirmed!'',
                   ToastLoading ''Processing payment...''] @ pay
         @ [ToastSuccess ''Payment successful!'', ToastLoading ''Submitting proposal...'',
            HttpPost (proposal_request e (formData st) (address acct) (digest r))]
         @ ?tail"
      have "loading_updates ?tail = []"
        by (simp split: sum.splits)
      then have "loading_updates ?mid = []"
        using lp by simp
      moreover have "handleSubmit e st =
          [PreventDefault, SetLoading True,
           ToastConfirm ''Please confirm payment of 1 SUI to submit proposal'',
           ToastLoading ''Awaiting confirmation...''] @ ?mid @ SetLoading False # []"
        using handleSubmit_paid [OF assms Confirm hp [unfolded Inr] acct]
        by (simp add: confirm_prompt_def)
      ultimately show ?thesis
        by blast
    qed
  qed
qed

lemma handleSuiPayment_signs_at_most_once: "length (sign_calls (fst (handleSuiPayment sg))) \<le> 1"
  by (cases "handleSuiPayment sg") (auto dest!: handleSuiPayment_cases)

section \<open>Suspended runs\<close>

lemma loading_run:
  "loading (run st evs) = (if loading_updates evs = [] then loading st else last (loading_updates evs))"
  by (induction evs arbitrary: st) (auto split: event.splits)

lemma split_awaits_nonempty [simp]: "split_awaits evs \<noteq> []"
  by (induction evs) (auto split: list.splits)

lemma concat_split_awaits [simp]: "concat (split_awaits evs) = evs"
  by (induction evs) (auto split: list.splits)

lemma split_awaits_append_quiet:
  assumes "\<forall>ev \<in> set b. \<not> suspends ev"
  shows "split_awaits (a @ b) = butlast (split_awaits a) @ [last (split_awaits a) @ b]"
  using assms
proof (induction a)
  case Nil
  then show ?case
    by (induction b) (auto split: list.splits)
next
  case (Cons ev a)
  then show ?case
    by (auto split: list.splits)
qed

lemma split_awaits_first:
  assumes "\<forall>x \<in> set pre. \<not> suspends x" and "suspends ev"
  shows "split_awaits (pre @ ev # rest) = (pre @ [ev]) # split_awaits rest"
  using assms by (induction pre) (auto split: list.splits)

lemma split_awaits_parts:
  assumes "loading_updates evs = []"
  shows "loading_updates (concat (butlast (split_awaits evs))) = []"
    and "loading_updates (last (split_awaits evs)) = []"
proof -
  have "concat (butlast (split_awaits evs)) @ last (split_awaits evs) =
      concat (butlast (split_awaits evs) @ [last (split_awaits evs)])"
    by (simp only: concat_append concat.simps append_Nil2)
  also have "\<dots> = concat (split_awaits evs)"
    by (simp only: append_butlast_last_id [OF split_awaits_nonempty])
  finally have "concat (butlast (split_awaits evs)) @ last (split_awaits evs) = evs"
    by simp
  then have "loading_updates (concat (butlast (split_awaits evs))) @ loading_updates (last (split_awaits evs)) = []"
    using assms by (metis loading_updates_simps(3))
  then show "loading_updates (concat (butlast (split_awaits evs))) = []"
    and "loading_updates (last (split_awaits evs)) = []"
    by simp_all
qed

lemma split_awaits_valid:
  assumes "preconditions_hold e st"
  shows "\<exists>rest. split_awaits (handleSubmit e st) =
            [PreventDefault, SetLoading True,
             ToastConfirm ''Please confirm payment of 1 SUI to submit proposal'',
             ToastLoading ''Awaiting confirmation...''] # rest
          \<and> pending_ok rest"
proof -
  obtain mid late where log: "handleSubmit e st =
             [PreventDefault, SetLoading True,
              ToastConfirm ''Please confirm payment of 1 SUI to submit proposal'',
              ToastLoading ''Awaiting confirmation...''] @ mid @ SetLoading False # late"
      and mid: "loading_updates mid = []"
      and late: "late = [] \<or> late = [ToastError ''Payment cancelled'']"
    using handleSubmit_brackets_loading [OF assms] by blast
  let ?tail = "SetLoading False # late"
  have quiet: "\<forall>ev \<in> set ?tail. \<not> suspends ev"
    using late by (auto simp: suspends_def)
  have lt: "loading_updates ?tail = [False]"
    using late by auto
  have first: "split_awaits (handleSubmit e st) =
      [PreventDefault, SetLoading True,
       ToastConfirm ''Please confirm payment of 1 SUI to submit proposal'',
       ToastLoading ''Awaiting confirmation...''] # split_awaits (mid @ ?tail)"
    unfolding log by (simp add: suspends_def)
  have rest: "split_awaits (mid @ ?tail) =
      butlast (split_awaits mid) @ [last (split_awaits mid) @ ?tail]"
    using quiet by (rule split_awaits_append_quiet)
  have "pending_ok (butlast (split_awaits mid) @ [last (split_awaits mid) @ ?tail])"
    using split_awaits_parts [OF mid] lt
    by (simp add: pending_ok_def del: loading_updates_simps(2))
  with first rest show ?thesis
    by simp
qed

lemma split_awaits_invalid:
  assumes "\<not> preconditions_hold e st"
  shows "split_awaits (handleSubmit e st) = [handleSubmit e st]"
    and "run st (handleSubmit e st) = st"
proof -
  obtain msg where log: "handleSubmit e st = [PreventDefault, ToastError msg]"
    using handleSubmit_invalid [OF assms] by blast
  show "split_awaits (handleSubmit e st) = [handleSubmit e st]"
    unfolding log by (simp add: suspends_def)
  show "run st (handleSubmit e st) = st"
    unfolding log by simp
qed

lemma page_step_submit:
  assumes "page_inv c"
  shows "page_inv (page_step c (Submit e))"
proof (cases "submit_disabled (useWallet e) (page c)")
  case True
  with assms show ?thesis
    by (simp add: page_step_def)
next
  case False
  then have idle: "\<not> loading (page c)"
    by (simp add: submit_disabled_def)
  with assms have none: "running c = []"
    by (auto simp: page_inv_def split: if_splits)
  show ?thesis
  proof (cases "preconditions_hold e (page c)")
    case True
    then obtain rest where
        sp: "split_awaits (handleSubmit e (page c)) =
            [PreventDefault, SetLoading True,
             ToastConfirm ''Please confirm payment of 1 SUI to submit proposal'',
             ToastLoading ''Awaiting confirmation...''] # rest"
        and ok: "pending_ok rest"
      using split_awaits_valid by blast
    from ok have "rest \<noteq> []"
      by (simp add: pending_ok_def)
    with False none ok show ?thesis
      by (simp add: page_step_def sp page_inv_def)
  next
    case no: False
    from False none idle show ?thesis
      by (simp add: page_step_def split_awaits_invalid [OF no] page_inv_def)
  qed
qed

lemma page_step_resume:
  assumes "page_inv c"
  shows "page_inv (page_step c (Resume i))"
proof (cases "i < length (running c)")
  case False
  with assms show ?thesis
    by (simp add: page_step_def)
next
  case True
  with assms obtain segs where r: "running c = [segs]" and ok: "pending_ok segs"
      and ld: "loading (page c)"
    by (auto simp: page_inv_def split: if_splits)
  from True r have i: "i = 0"
    by simp
  from ok obtain seg rest where segs: "segs = seg # rest"
    by (cases segs) (auto simp: pending_ok_def)
  show ?thesis
  proof (cases "rest = []")
    case True
    with ok segs have "loading_updates seg = [False]"
      by (simp add: pending_ok_def)
    then have "\<not> loading (run (page c) seg)"
      by (simp add: loading_run)
    with True show ?thesis
      by (simp add: page_step_def r i segs page_inv_def)
  next
    case False
    with ok segs have quiet: "loading_updates seg = []" and ok': "pending_ok rest"
      by (auto simp: pending_ok_def)
    from quiet ld have "loading (run (page c) seg)"
      by (simp add: loading_run)
    with False ok' show ?thesis
      by (simp add: page_step_def r i segs page_inv_def)
  qed
qed

lemma page_step_change:
  assumes "page_inv c"
  shows "page_inv (page_step c (Change f v))"
  using assms by (simp add: page_step_def page_inv_def)

lemma page_inv_step: "page_inv c \<Longrightarrow> page_inv (page_step c a)"
  by (cases a) (simp_all add: page_step_submit page_step_resume page_step_change)

lemma page_inv_run: "\<not> loading st \<Longrightarrow> page_inv (page_run st acts)"
proof (induction acts rule: rev_induct)
  case Nil
  then show ?case by (simp add: page_run_def page_inv_def)
next
  case (snoc a acts)
  then show ?case by (simp add: page_run_def page_inv_step)
qed

lemma resume_single:
  assumes "segs \<noteq> []"
  shows "foldl page_step \<lparr>page = p, running = [segs]\<rparr> (replicate (length segs) (Resume 0)) =
           \<lparr>page = run p (concat segs), running = []\<rparr>"
  using assms
proof (induction segs arbitrary: p)
  case Nil
  then show ?case by simp
next
  case (Cons seg rest)
  show ?case
  proof (cases "rest = []")
    case True
    then show ?thesis
      by (simp add: page_step_def)
  next
    case False
    have "page_step \<lparr>page = p, running = [seg # rest]\<rparr> (Resume 0) =
        \<lparr>page = run p seg, running = [rest]\<rparr>"
      using False by (simp add: page_step_def)
    then show ?thesis
      using Cons.IH [OF False, of "run p seg"] by simp
  qed
qed

lemma solo_run_is_handleSubmit:
  assumes "\<not> submit_disabled (useWallet e) st"
  shows "page_run st (Submit e # replicate (length (split_awaits (handleSubmit e st)) - 1) (Resume 0)) =
           \<lparr>page = run st (handleSubmit e st), running = []\<rparr>"
proof (cases "split_awaits (handleSubmit e st)")
  case Nil
  then show ?thesis by simp
next
  case (Cons seg rest)
  have whole: "seg @ concat rest = handleSubmit e st"
    using concat_split_awaits [of "handleSubmit e st"] unfolding Cons by simp
  show ?thesis
  proof (cases "rest = []")
    case True
    with assms Cons whole show ?thesis
      by (simp add: page_run_def page_step_def)
  next
    case False
    have "page_step \<lparr>page = st, running = []\<rparr> (Submit e) =
        \<lparr>page = run st seg, running = [rest]\<rparr>"
      using assms False by (simp add: page_step_def Cons)
    then show ?thesis
      using resume_single [OF False, of "run st seg"] whole
      by (simp add: page_run_def Cons flip: run_append)
  qed
qed

lemma example_segments:
  "split_awaits (handleSubmit example_env example_state) =
     [[PreventDefault, SetLoading True,
       ToastConfirm ''Please confirm payment of 1 SUI to submit proposal'',
       ToastLoading ''Awaiting confirmation...''],
      [ToastDismiss, ToastSuccess ''Payment confirmed!'', ToastLoading ''Processing payment...'',
       SignAndExecute payment_request],
      [ToastSuccess ''Payment successful!'', ToastLoading ''Submitting proposal...'',
       HttpPost example_request],
      [ToastSuccess ''Proposal submitted successfully!'',
       SetFormData empty_form, SetPreviewUrl None, Navigate ''/'',
       SetLoading False]]"
  by (simp add: example_log suspends_def)

lemma example_enabled: "\<not> submit_disabled (useWallet example_env) example_state"
  by (simp add: submit_disabled_def example_env_def example_wallet_def example_state_def)

lemma example_submitted:
  "page_run example_state [Submit example_env] =
     \<lparr>page = example_state\<lparr>loading := True\<rparr>,
      running =
        [[[ToastDismiss, ToastSuccess ''Payment confirmed!'', ToastLoading ''Processing payment...'',
           SignAndExecute payment_request],
          [ToastSuccess ''Payment successful!'', ToastLoading ''Submitting proposal...'',
           HttpPost example_request],
          [ToastSuccess ''Proposal submitted successfully!'',
           SetFormData empty_form, SetPreviewUrl None, Navigate ''/'',
           SetLoading False]]]\<rparr>"
  using example_enabled by (simp add: page_run_def page_step_def example_segments)

lemma page_run_snoc: "page_run st (acts @ [a]) = page_step (page_run st acts) a"
  by (simp add: page_run_def)

lemma example_second_submit:
  "page_run example_state [Submit example_env, Submit example_env] =
     page_run example_state [Submit example_env]"
proof -
  have "submit_disabled (useWallet example_env) (page (page_run example_state [Submit example_env]))"
    by (simp add: example_submitted submit_disabled_def)
  then have "page_step (page_run example_state [Submit example_env]) (Submit example_env) =
      page_run example_state [Submit example_env]"
    by (simp add: page_step_def)
  then show ?thesis
    using page_run_snoc [of example_state "[Submit example_env]" "Submit example_env"] by simp
qed

lemma example_completed:
  "page_run example_state
     (Submit example_env
        # replicate (length (split_awaits (handleSubmit example_env example_state)) - 1) (Resume 0)) =
     \<lparr>page = \<lparr>loading = False, formData = empty_form, previewUrl = None\<rparr>, running = []\<rparr>"
proof -
  have "run example_state (handleSubmit example_env example_state) =
      \<lparr>loading = False, formData = empty_form, previewUrl = None\<rparr>"
    unfolding example_log by simp
  with solo_run_is_handleSubmit [OF example_enabled] show ?thesis
    by simp
qed

section \<open>The claims\<close>

text \<open>
  C1. In every run of \<open>handleSubmit\<close>, a POST of the multipart submission is preceded by
  a call of \<open>handleSuiPayment\<close> that returned a receipt with status \<open>success\<close>: the
  signer call is in the log before the POST, the POST is the only one of the run, and its
  \<open>payment_tx\<close> field is the digest of that receipt. No path posts without it.
\<close>

theorem submission_only_after_successful_payment:
  assumes "HttpPost req \<in> set (handleSubmit e st)"
  shows "\<exists>pay r pre post.
           handleSuiPayment (signAndExecuteTransactionBlock (useWallet e)) = (pay, Inr r)
         \<and> status r = ''success''
         \<and> handleSubmit e st = pre @ HttpPost req # post
         \<and> SignAndExecute payment_request \<in> set pre
         \<and> post_calls pre = [] \<and> post_calls post = []
         \<and> (''payment_tx'', Text (digest r)) \<in> set (body req)"
proof -
  have valid: "preconditions_hold e st"
  proof (rule ccontr)
    assume "\<not> preconditions_hold e st"
    then obtain msg where "handleSubmit e st = [PreventDefault, ToastError msg]"
      using handleSubmit_invalid by blast
    with assms show False by simp
  qed
  then obtain acct where acct: "account (useWallet e) = Some acct"
    by (auto simp: preconditions_hold_def)
  obtain pay res where hp: "handleSuiPayment (signAndExecuteTransactionBlock (useWallet e)) = (pay, res)"
    by (cases "handleSuiPayment (signAndExecuteTransactionBlock (useWallet e))")
  have no_post: "post_calls pay = []"
    using hp by (rule post_calls_payment)
  have confirmed: "choice e = Confirm"
  proof (cases "choice e")
    case Cancel
    with valid have "post_calls (handleSubmit e st) = []"
      by (simp add: handleSubmit_cancelled)
    with assms show ?thesis by (simp add: post_calls_mem)
  qed
  obtain r where r: "res = Inr r"
  proof (cases res)
    case (Inl error)
    with valid confirmed hp no_post have "post_calls (handleSubmit e st) = []"
      by (simp add: handleSubmit_payment_failed)
    with assms show ?thesis by (simp add: post_calls_mem)
  next
    case (Inr r)
    then show ?thesis by (rule that)
  qed
  let ?request = "proposal_request e (formData st) (address acct) (digest r)"
  let ?pre = "PreventDefault # SetLoading True # confirm_prompt
       @ [ToastSuccess ''Payment confirmed!'', ToastLoading ''Processing payment...''] @ pay
       @ [ToastSuccess ''Payment successful!'', ToastLoading ''Submitting proposal...'']"
  let ?post = "(case axios_post e ?request of
            Inl error \<Rightarrow> catch_block error
          | Inr response \<Rightarrow>
              [ToastSuccess ''Proposal submitted successfully!'',
               SetFormData empty_form, SetPreviewUrl None, Navigate ''/''])
       @ [SetLoading False]"
  have log: "handleSubmit e st = ?pre @ HttpPost ?request # ?post"
    using handleSubmit_paid [OF valid confirmed hp [unfolded r] acct] by simp
  have post_pre: "post_calls ?pre = []"
    using no_post by simp
  have post_post: "post_calls ?post = []"
    by (simp split: sum.splits)
  have "post_calls (handleSubmit e st) = [?request]"
    unfolding log using no_post by (simp split: sum.splits)
  with assms have req: "req = ?request"
    by (simp add: post_calls_mem)
  from hp r have paid: "pay = [SignAndExecute payment_request]" and s: "status r = ''success''"
    by (auto dest!: handleSuiPayment_cases)
  have signed: "SignAndExecute payment_request \<in> set ?pre"
    by (simp add: paid)
  have tx: "(''payment_tx'', Text (digest r)) \<in> set (body ?request)"
    by (simp add: proposal_request_def submitData_def)
  from hp r s log post_pre post_post signed tx show ?thesis
    unfolding req by blast
qed

theorem submission_only_after_successful_payment_witness:
  "HttpPost example_request \<in> set (handleSubmit example_env example_state)
   \<and> (\<exists>pay r pre post.
           handleSuiPayment (signAndExecuteTransactionBlock (useWallet example_env)) = (pay, Inr r)
         \<and> status r = ''success''
         \<and> handleSubmit example_env example_state = pre @ HttpPost example_request # post
         \<and> SignAndExecute payment_request \<in> set pre
         \<and> post_calls pre = [] \<and> post_calls post = []
         \<and> (''payment_tx'', Text (digest r)) \<in> set (body example_request))"
proof -
  have h: "HttpPost example_request \<in> set (handleSubmit example_env example_state)"
    by (simp add: example_log)
  from h submission_only_after_successful_payment [OF h] show ?thesis
    by blast
qed

text \<open>
  C2. When the signer call throws, \<open>handleSuiPayment\<close> throws
  \<open>Error("Insufficient SUI balance")\<close> if the lower-cased message includes
  \<open>insufficient\<close>; otherwise \<open>Error("User rejected the transaction")\<close> if it includes
  \<open>reject\<close>; otherwise the error it caught, unchanged. The \<open>insufficient\<close> test comes
  first.
\<close>

theorem handleSuiPayment_classifies_signer_error:
  assumes "sign payment_request = Inl err"
  shows "snd (handleSuiPayment (Some sign)) =
     Inl (if (\<exists>m. message err = Some m \<and> js_includes (toLowerCase m) ''insufficient'')
            then Error (Some ''Insufficient SUI balance'')
          else if (\<exists>m. message err = Some m \<and> js_includes (toLowerCase m) ''reject'')
            then Error (Some ''User rejected the transaction'')
          else err)"
  using assms
  by (cases "message err")
     (simp_all add: handleSuiPayment_def payment_catch_def message_lower_includes_def)

theorem handleSuiPayment_classifies_signer_error_witness:
  "snd (handleSuiPayment (Some (\<lambda>request. Inl (Error (Some ''User REJECTED: Insufficient gas''))))) =
     Inl (Error (Some ''Insufficient SUI balance''))"
  using handleSuiPayment_classifies_signer_error
    [of "\<lambda>request. Inl (Error (Some ''User REJECTED: Insufficient gas''))"
        "Error (Some ''User REJECTED: Insufficient gas'')"]
  by (simp add: lower_example includes_example)

text \<open>
  C3. When the name, the twitter handle or the description of the draft is the empty string,
  \<open>handleSubmit\<close> shows one error toast and returns: the confirmation prompt is not
  shown, neither the signer nor the backend is called, and the page state (form, preview,
  loading flag) is what it was.
\<close>

theorem missing_required_field_aborts:
  assumes "name (formData st) = [] \<or> twitter (formData st) = [] \<or> description (formData st) = []"
  shows "(\<exists>msg \<in> {''Please connect your wallet first!'',
                    ''Wallet connection not initialized properly'',
                    ''Please fill in all required fields (Name, Twitter, Description)''}.
            handleSubmit e st = [PreventDefault, ToastError msg])
       \<and> prompts (handleSubmit e st) = []
       \<and> sign_calls (handleSubmit e st) = []
       \<and> post_calls (handleSubmit e st) = []
       \<and> run st (handleSubmit e st) = st"
proof -
  from assms have "\<not> preconditions_hold e st"
    by (auto simp: preconditions_hold_def)
  then obtain msg where
      msg: "msg \<in> {''Please connect your wallet first!'',
                   ''Wallet connection not initialized properly'',
                   ''Please fill in all required fields (Name, Twitter, Description)''}"
      and log: "handleSubmit e st = [PreventDefault, ToastError msg]"
    using handleSubmit_invalid by blast
  have "prompts (handleSubmit e st) = []"
    unfolding log by (simp add: prompts_def)
  moreover have "sign_calls (handleSubmit e st) = []"
    unfolding log by simp
  moreover have "post_calls (handleSubmit e st) = []"
    unfolding log by simp
  moreover have "run st (handleSubmit e st) = st"
    unfolding log by simp
  ultimately show ?thesis
    using msg log by blast
qed

theorem missing_required_field_aborts_witness:
  "handleSubmit example_env (example_state\<lparr>formData := (formData example_state)\<lparr>twitter := ''''\<rparr>\<rparr>) =
     [PreventDefault, ToastError ''Please fill in all required fields (Name, Twitter, Description)'']
   \<and> run (example_state\<lparr>formData := (formData example_state)\<lparr>twitter := ''''\<rparr>\<rparr>)
        (handleSubmit example_env (example_state\<lparr>formData := (formData example_state)\<lparr>twitter := ''''\<rparr>\<rparr>))
      = example_state\<lparr>formData := (formData example_state)\<lparr>twitter := ''''\<rparr>\<rparr>"
proof -
  let ?st = "example_state\<lparr>formData := (formData example_state)\<lparr>twitter := ''''\<rparr>\<rparr>"
  have h: "name (formData ?st) = [] \<or> twitter (formData ?st) = [] \<or> description (formData ?st) = []"
    by simp
  have "handleSubmit example_env ?st =
     [PreventDefault, ToastError ''Please fill in all required fields (Name, Twitter, Description)'']"
    by (simp add: handleSubmit_def example_env_def example_wallet_def example_state_def)
  with missing_required_field_aborts [OF h, of example_env] show ?thesis
    by simp
qed

text \<open>
  C4. When the three guards pass, the user confirms, the signer resolves and the POST to
  \<open>BACKEND_URL/api/proposals\<close> resolves, the run ends with the form reset to its initial
  empty value (all four strings empty, no picture), the preview \<open>null\<close>, the loading flag
  \<open>false\<close>, and \<open>navigate('/')\<close> called exactly once; the signer and the backend were
  each called once.
\<close>

theorem successful_attempt_resets_form_and_navigates:
  assumes "preconditions_hold e st" and "choice e = Confirm"
      and "signAndExecuteTransactionBlock (useWallet e) = Some sign"
      and "sign payment_request = Inr response"
      and "account (useWallet e) = Some acct"
      and "axios_post e (proposal_request e (formData st) (address acct) (tx_digest response)) = Inr ack"
  shows "run st (handleSubmit e st) =
           \<lparr>loading = False,
            formData = \<lparr>name = '''', twitter = '''', website = '''', description = '''',
                        profilePicture = None\<rparr>,
            previewUrl = None\<rparr>
       \<and> navigations (handleSubmit e st) = [''/'']
       \<and> sign_calls (handleSubmit e st) = [payment_request]
       \<and> post_calls (handleSubmit e st) =
            [proposal_request e (formData st) (address acct) (tx_digest response)]
       \<and> url (proposal_request e (formData st) (address acct) (tx_digest response)) =
            BACKEND_URL e @ ''/api/proposals''"
proof -
  let ?r = "\<lparr>digest = tx_digest response, status = ''success'',
            amount = SUI_AMOUNT, receiver = FUND_RECEIVER_ADDRESS\<rparr>"
  have pay: "handleSuiPayment (signAndExecuteTransactionBlock (useWallet e)) =
      ([SignAndExecute payment_request], Inr ?r)"
    using assms(3,4) by (simp add: handleSuiPayment_resolved)
  have log: "handleSubmit e st =
     PreventDefault # SetLoading True # confirm_prompt
       @ [ToastSuccess ''Payment confirmed!'', ToastLoading ''Processing payment...'',
          SignAndExecute payment_request,
          ToastSuccess ''Payment successful!'', ToastLoading ''Submitting proposal...'',
          HttpPost (proposal_request e (formData st) (address acct) (tx_digest response)),
          ToastSuccess ''Proposal submitted successfully!'',
          SetFormData empty_form, SetPreviewUrl None, Navigate ''/'',
          SetLoading False]"
    using handleSubmit_paid [OF assms(1,2) pay assms(5)] assms(6) by simp
  have "run st (handleSubmit e st) = \<lparr>loading = False, formData = empty_form, previewUrl = None\<rparr>"
    unfolding log by simp
  moreover have "navigations (handleSubmit e st) = [''/'']"
    unfolding log by simp
  moreover have "sign_calls (handleSubmit e st) = [payment_request]"
    unfolding log by simp
  moreover have "post_calls (handleSubmit e st) =
      [proposal_request e (formData st) (address acct) (tx_digest response)]"
    unfolding log by simp
  ultimately show ?thesis
    by (simp add: empty_form_def proposal_request_def)
qed

theorem successful_attempt_resets_form_and_navigates_witness:
  "run example_state (handleSubmit example_env example_state) =
           \<lparr>loading = False,
            formData = \<lparr>name = '''', twitter = '''', website = '''', description = '''',
                        profilePicture = None\<rparr>,
            previewUrl = None\<rparr>
   \<and> navigations (handleSubmit example_env example_state) = [''/'']"
proof -
  have sg: "signAndExecuteTransactionBlock (useWallet example_env) =
      Some (\<lambda>request. Inr \<lparr>tx_digest = ''0xabc''\<rparr>)"
    by (simp add: example_env_def example_wallet_def)
  have res: "(\<lambda>request. Inr \<lparr>tx_digest = ''0xabc''\<rparr>) payment_request =
      (Inr \<lparr>tx_digest = ''0xabc''\<rparr> :: js_error + sign_response)"
    by simp
  have acct: "account (useWallet example_env) = Some \<lparr>address = ''0x1''\<rparr>"
    by (simp add: example_env_def example_wallet_def)
  have ch: "choice example_env = Confirm"
    by (simp add: example_env_def)
  have post: "axios_post example_env
      (proposal_request example_env (formData example_state) (address \<lparr>address = ''0x1''\<rparr>)
         (tx_digest \<lparr>tx_digest = ''0xabc''\<rparr>)) = Inr \<lparr>http_status = 200\<rparr>"
    by (simp add: example_env_def)
  from successful_attempt_resets_form_and_navigates
         [OF example_preconditions ch sg res acct post]
  show ?thesis by simp
qed

text \<open>
  C5. When the payment succeeds and the POST is rejected, the run ends in the \<open>catch\<close> block
  with an error toast and the loading flag \<open>false\<close>; the page state is the one at the start
  but for the loading flag, so the form keeps its values and nothing of the receipt is kept;
  the signer and the backend were each called exactly once, and there is no navigation.
\<close>

theorem backend_failure_after_payment:
  assumes "preconditions_hold e st" and "choice e = Confirm"
      and "signAndExecuteTransactionBlock (useWallet e) = Some sign"
      and "sign payment_request = Inr response"
      and "account (useWallet e) = Some acct"
      and "axios_post e (proposal_request e (formData st) (address acct) (tx_digest response)) = Inl error"
  shows "(\<exists>pre msg. handleSubmit e st =
            pre @ [ConsoleError ''Error:'' error, ToastError msg, SetLoading False])
       \<and> run st (handleSubmit e st) = st\<lparr>loading := False\<rparr>
       \<and> sign_calls (handleSubmit e st) = [payment_request]
       \<and> post_calls (handleSubmit e st) =
            [proposal_request e (formData st) (address acct) (tx_digest response)]
       \<and> navigations (handleSubmit e st) = []"
proof -
  let ?r = "\<lparr>digest = tx_digest response, status = ''success'',
            amount = SUI_AMOUNT, receiver = FUND_RECEIVER_ADDRESS\<rparr>"
  let ?pre = "PreventDefault # SetLoading True # confirm_prompt
       @ [ToastSuccess ''Payment confirmed!'', ToastLoading ''Processing payment...'',
          SignAndExecute payment_request,
          ToastSuccess ''Payment successful!'', ToastLoading ''Submitting proposal...'',
          HttpPost (proposal_request e (formData st) (address acct) (tx_digest response))]"
  have pay: "handleSuiPayment (signAndExecuteTransactionBlock (useWallet e)) =
      ([SignAndExecute payment_request], Inr ?r)"
    using assms(3,4) by (simp add: handleSuiPayment_resolved)
  have log: "handleSubmit e st = ?pre @ catch_block error @ [SetLoading False]"
    using handleSubmit_paid [OF assms(1,2) pay assms(5)] assms(6) by simp
  obtain msg where msg: "catch_block error = [ConsoleError ''Error:'' error, ToastError msg]"
    using catch_block_shape by blast
  have "handleSubmit e st = ?pre @ [ConsoleError ''Error:'' error, ToastError msg, SetLoading False]"
    unfolding log msg by simp
  then have "\<exists>pre msg. handleSubmit e st =
            pre @ [ConsoleError ''Error:'' error, ToastError msg, SetLoading False]"
    by blast
  moreover have "run st (handleSubmit e st) = st\<lparr>loading := False\<rparr>"
    unfolding log by simp
  moreover have "sign_calls (handleSubmit e st) = [payment_request]"
    unfolding log by simp
  moreover have "post_calls (handleSubmit e st) =
      [proposal_request e (formData st) (address acct) (tx_digest response)]"
    unfolding log by simp
  moreover have "navigations (handleSubmit e st) = []"
    unfolding log by simp
  ultimately show ?thesis
    by simp
qed

theorem backend_failure_after_payment_witness:
  "run example_state
     (handleSubmit (example_env\<lparr>axios_post := (\<lambda>request. Inl (Error (Some ''Network Error'')))\<rparr>)
        example_state) = example_state
   \<and> sign_calls
       (handleSubmit (example_env\<lparr>axios_post := (\<lambda>request. Inl (Error (Some ''Network Error'')))\<rparr>)
          example_state) = [payment_request]
   \<and> post_calls
       (handleSubmit (example_env\<lparr>axios_post := (\<lambda>request. Inl (Error (Some ''Network Error'')))\<rparr>)
          example_state) = [example_request]"
proof -
  let ?e = "example_env\<lparr>axios_post := (\<lambda>request. Inl (Error (Some ''Network Error'')))\<rparr>"
  have pre: "preconditions_hold ?e example_state"
    using example_preconditions by (simp add: preconditions_hold_def)
  have sg: "signAndExecuteTransactionBlock (useWallet ?e) =
      Some (\<lambda>request. Inr \<lparr>tx_digest = ''0xabc''\<rparr>)"
    by (simp add: example_env_def example_wallet_def)
  have res: "(\<lambda>request. Inr \<lparr>tx_digest = ''0xabc''\<rparr>) payment_request =
      (Inr \<lparr>tx_digest = ''0xabc''\<rparr> :: js_error + sign_response)"
    by simp
  have acct: "account (useWallet ?e) = Some \<lparr>address = ''0x1''\<rparr>"
    by (simp add: example_env_def example_wallet_def)
  have ch: "choice ?e = Confirm"
    by (simp add: example_env_def)
  have post: "axios_post ?e
      (proposal_request ?e (formData example_state) (address \<lparr>address = ''0x1''\<rparr>)
         (tx_digest \<lparr>tx_digest = ''0xabc''\<rparr>)) = Inl (Error (Some ''Network Error''))"
    by simp
  have req: "proposal_request ?e (formData example_state) ''0x1'' ''0xabc'' = example_request"
    using example_proposal_request by (simp add: proposal_request_def example_env_def)
  have st: "example_state\<lparr>loading := False\<rparr> = example_state"
    by (simp add: example_state_def)
  from backend_failure_after_payment [OF pre ch sg res acct post]
  show ?thesis by (simp add: req st)
qed

text \<open>
  C6. When the user presses Cancel in the confirmation toast, neither the signer nor the
  backend is called; the \<open>catch\<close> block reports \<open>Payment cancelled by user\<close>, the loading
  flag is reset, and the error toast of \<open>toast.promise\<close> comes last; the form and the
  preview keep their values.
\<close>

theorem cancel_at_confirmation:
  assumes "preconditions_hold e st" and "choice e = Cancel"
  shows "sign_calls (handleSubmit e st) = []
       \<and> post_calls (handleSubmit e st) = []
       \<and> (\<exists>pre. handleSubmit e st =
             pre @ [ConsoleError ''Error:'' (Error (Some ''Payment cancelled'')),
                    ToastError ''Payment cancelled by user'', SetLoading False,
                    ToastError ''Payment cancelled''])
       \<and> run st (handleSubmit e st) = st\<lparr>loading := False\<rparr>
       \<and> formData (run st (handleSubmit e st)) = formData st
       \<and> previewUrl (run st (handleSubmit e st)) = previewUrl st"
proof -
  let ?pre = "PreventDefault # SetLoading True # confirm_prompt"
  have log: "handleSubmit e st =
      ?pre @ [ConsoleError ''Error:'' (Error (Some ''Payment cancelled'')),
              ToastError ''Payment cancelled by user'', SetLoading False,
              ToastError ''Payment cancelled'']"
    using handleSubmit_cancelled [OF assms] by simp
  then have "\<exists>pre. handleSubmit e st =
             pre @ [ConsoleError ''Error:'' (Error (Some ''Payment cancelled'')),
                    ToastError ''Payment cancelled by user'', SetLoading False,
                    ToastError ''Payment cancelled'']"
    by blast
  moreover have "sign_calls (handleSubmit e st) = []"
    unfolding log by simp
  moreover have "post_calls (handleSubmit e st) = []"
    unfolding log by simp
  moreover have "run st (handleSubmit e st) = st\<lparr>loading := False\<rparr>"
    unfolding log by simp
  ultimately show ?thesis
    by simp
qed

theorem cancel_at_confirmation_witness:
  "handleSubmit (example_env\<lparr>choice := Cancel\<rparr>) example_state =
     [PreventDefault, SetLoading True,
      ToastConfirm ''Please confirm payment of 1 SUI to submit proposal'',
      ToastLoading ''Awaiting confirmation...'', ToastDismiss,
      ConsoleError ''Error:'' (Error (Some ''Payment cancelled'')),
      ToastError ''Payment cancelled by user'', SetLoading False,
      ToastError ''Payment cancelled'']
   \<and> sign_calls (handleSubmit (example_env\<lparr>choice := Cancel\<rparr>) example_state) = []
   \<and> post_calls (handleSubmit (example_env\<lparr>choice := Cancel\<rparr>) example_state) = []
   \<and> run example_state (handleSubmit (example_env\<lparr>choice := Cancel\<rparr>) example_state) = example_state"
proof -
  have pre: "preconditions_hold (example_env\<lparr>choice := Cancel\<rparr>) example_state"
    using example_preconditions by (simp add: preconditions_hold_def)
  have ch: "choice (example_env\<lparr>choice := Cancel\<rparr>) = Cancel"
    by simp
  have st: "example_state\<lparr>loading := False\<rparr> = example_state"
    by (simp add: example_state_def)
  have log: "handleSubmit (example_env\<lparr>choice := Cancel\<rparr>) example_state =
     [PreventDefault, SetLoading True,
      ToastConfirm ''Please confirm payment of 1 SUI to submit proposal'',
      ToastLoading ''Awaiting confirmation...'', ToastDismiss,
      ConsoleError ''Error:'' (Error (Some ''Payment cancelled'')),
      ToastError ''Payment cancelled by user'', SetLoading False,
      ToastError ''Payment cancelled'']"
    using handleSubmit_cancelled [OF pre ch] by (simp add: confirm_prompt_def)
  from cancel_at_confirmation [OF pre ch] log
  show ?thesis by (simp add: st)
qed

text \<open>
  C7. \<open>handleImageUpload\<close> on a selected file: when the size is at most
  \<open>5 * 1024 * 1024\<close> bytes and the MIME type starts with \<open>image/\<close>, the file becomes the
  draft's \<open>profilePicture\<close> and the preview is set from the reader's result; otherwise one
  error toast is shown, and the form and the preview are not written.
\<close>

theorem image_upload_accepts_only_small_images:
  "handleImageUpload read st (f # fs) =
     (if file_size f \<le> 5 * 1024 * 1024 \<and> startsWith (file_type f) ''image/''
      then [SetFormData ((formData st)\<lparr>profilePicture := Some f\<rparr>), ReadAsDataURL f,
            SetPreviewUrl (read f)]
      else [ToastError (if file_size f > 5 * 1024 * 1024 then ''Image size should be less than 5MB''
                        else ''Please upload an image file'')])
   \<and> (if file_size f \<le> 5 * 1024 * 1024 \<and> startsWith (file_type f) ''image/''
      then run st (handleImageUpload read st (f # fs)) =
             st\<lparr>formData := (formData st)\<lparr>profilePicture := Some f\<rparr>, previewUrl := read f\<rparr>
      else run st (handleImageUpload read st (f # fs)) = st
         \<and> form_updates (handleImageUpload read st (f # fs)) = []
         \<and> preview_updates (handleImageUpload read st (f # fs)) = [])"
  by (simp add: handleImageUpload_def MAX_IMAGE_SIZE_def form_updates_def preview_updates_def
      not_less)

theorem image_upload_accepts_only_small_images_witness:
  "handleImageUpload (\<lambda>f. Some ''data:image/png;base64,AAAA'') example_state [example_image] =
     [SetFormData ((formData example_state)\<lparr>profilePicture := Some example_image\<rparr>),
      ReadAsDataURL example_image,
      SetPreviewUrl (Some ''data:image/png;base64,AAAA'')]
   \<and> handleImageUpload (\<lambda>f. Some ''data:image/png;base64,AAAA'') example_state
        [example_image\<lparr>file_size := 5242881\<rparr>] =
     [ToastError ''Image size should be less than 5MB'']
   \<and> handleImageUpload (\<lambda>f. Some ''data:text/plain;base64,AAAA'') example_state
        [example_image\<lparr>file_type := ''text/plain''\<rparr>] =
     [ToastError ''Please upload an image file'']"
  using image_upload_accepts_only_small_images
          [of "\<lambda>f. Some ''data:image/png;base64,AAAA''" example_state example_image "[]"]
        image_upload_accepts_only_small_images
          [of "\<lambda>f. Some ''data:image/png;base64,AAAA''" example_state
              "example_image\<lparr>file_size := 5242881\<rparr>" "[]"]
        image_upload_accepts_only_small_images
          [of "\<lambda>f. Some ''data:text/plain;base64,AAAA''" example_state
              "example_image\<lparr>file_type := ''text/plain''\<rparr>" "[]"]
  by (simp add: example_image_def)

text \<open>
  C8. When \<open>handleSuiPayment\<close> returns, the receipt holds the digest of the signer's
  response, the amount \<open>1000000000\<close> and the constant receiver address; the signer was
  called exactly once, with \<open>showEvents: true\<close> and a transaction block that splits that
  amount off the gas coin and transfers it to the receiver.
\<close>

theorem handleSuiPayment_success_receipt:
  assumes "handleSuiPayment sg = (pay, Inr r)"
  shows "\<exists>sign response.
           sg = Some sign \<and> sign payment_request = Inr response
         \<and> r = \<lparr>digest = tx_digest response, status = ''success'', amount = 1000000000,
                receiver = ''0xc4000ea0fd3244857575799ef4f8164c7b42d1c5bf840cfd54030f608b07556d''\<rparr>
         \<and> pay = [SignAndExecute payment_request]
         \<and> sign_calls pay = [payment_request]
         \<and> showEvents (options payment_request)
         \<and> transactionBlock payment_request =
             [SplitCoins GasCoin [Pure (PureBigInt 1000000000)],
              TransferObjects [NestedResult 0 0] (Pure (PureString (receiver r)))]"
proof -
  from assms obtain sign response where
      "sg = Some sign" and "sign payment_request = Inr response"
      and "pay = [SignAndExecute payment_request]"
      and "r = \<lparr>digest = tx_digest response, status = ''success'',
                amount = SUI_AMOUNT, receiver = FUND_RECEIVER_ADDRESS\<rparr>"
    by (auto dest!: handleSuiPayment_cases)
  then show ?thesis
    by (simp add: payment_request_eq SUI_AMOUNT_def FUND_RECEIVER_ADDRESS_def)
qed

theorem handleSuiPayment_success_receipt_witness:
  "handleSuiPayment (signAndExecuteTransactionBlock (useWallet example_env)) =
     ([SignAndExecute payment_request], Inr example_receipt)
   \<and> (\<exists>sign response.
           signAndExecuteTransactionBlock (useWallet example_env) = Some sign
         \<and> sign payment_request = Inr response
         \<and> example_receipt = \<lparr>digest = tx_digest response, status = ''success'', amount = 1000000000,
                receiver = ''0xc4000ea0fd3244857575799ef4f8164c7b42d1c5bf840cfd54030f608b07556d''\<rparr>)"
  using handleSuiPayment_success_receipt [OF example_payment] example_payment
  by blast

text \<open>
  C9. When the three guards pass, the log of the run is \<open>setLoading(true)\<close>, then events
  none of which writes the loading flag, then \<open>setLoading(false)\<close>, then at most the error
  toast of \<open>toast.promise\<close>, which is no prompt, signer call or POST. After every event
  strictly between the two writes the loading flag is \<open>true\<close> and the submit button's
  \<open>disabled\<close> expression holds, and the run ends with the flag \<open>false\<close>. On the page,
  started with the flag \<open>false\<close> and after any sequence of submissions, settled promises
  and field changes: at most one run is suspended; while one is, the flag is \<open>true\<close>, the
  button is disabled for every wallet state and a submission starts nothing; when none is,
  the flag is \<open>false\<close>.
\<close>

theorem loading_flag_guards_the_attempt:
  "(preconditions_hold e st \<longrightarrow>
      (\<exists>mid late.
          handleSubmit e st = PreventDefault # SetLoading True # mid @ SetLoading False # late
        \<and> loading_updates mid = [] \<and> loading_updates late = []
        \<and> prompts late = [] \<and> sign_calls late = [] \<and> post_calls late = []
        \<and> (\<forall>k \<le> length mid.
              loading (run st (PreventDefault # SetLoading True # take k mid))
            \<and> submit_disabled (useWallet e) (run st (PreventDefault # SetLoading True # take k mid)))
        \<and> \<not> loading (run st (handleSubmit e st))))
   \<and> (\<not> loading st0 \<longrightarrow>
        length (running (page_run st0 acts)) \<le> 1
      \<and> (running (page_run st0 acts) \<noteq> [] \<longrightarrow>
            loading (page (page_run st0 acts))
          \<and> (\<forall>e'. submit_disabled (useWallet e') (page (page_run st0 acts)))
          \<and> (\<forall>e'. page_step (page_run st0 acts) (Submit e') = page_run st0 acts))
      \<and> (running (page_run st0 acts) = [] \<longrightarrow> \<not> loading (page (page_run st0 acts))))"
proof -
  have log_part: "\<exists>mid late.
          handleSubmit e st = PreventDefault # SetLoading True # mid @ SetLoading False # late
        \<and> loading_updates mid = [] \<and> loading_updates late = []
        \<and> prompts late = [] \<and> sign_calls late = [] \<and> post_calls late = []
        \<and> (\<forall>k \<le> length mid.
              loading (run st (PreventDefault # SetLoading True # take k mid))
            \<and> submit_disabled (useWallet e) (run st (PreventDefault # SetLoading True # take k mid)))
        \<and> \<not> loading (run st (handleSubmit e st))"
    if pre: "preconditions_hold e st"
  proof -
    obtain mid late where log: "handleSubmit e st =
               [PreventDefault, SetLoading True,
                ToastConfirm ''Please confirm payment of 1 SUI to submit proposal'',
                ToastLoading ''Awaiting confirmation...''] @ mid @ SetLoading False # late"
        and mid: "loading_updates mid = []"
        and late: "late = [] \<or> late = [ToastError ''Payment cancelled'']"
      using handleSubmit_brackets_loading [OF pre] by blast
    let ?mid = "ToastConfirm ''Please confirm payment of 1 SUI to submit proposal''
                # ToastLoading ''Awaiting confirmation...'' # mid"
    have shape: "handleSubmit e st = PreventDefault # SetLoading True # ?mid @ SetLoading False # late"
      unfolding log by simp
    have quiet: "loading_updates ?mid = []"
      using mid by simp
    have l1: "loading_updates late = []" and l2: "prompts late = []"
        and l3: "sign_calls late = []" and l4: "post_calls late = []"
      using late by (auto simp: prompts_def)
    have during: "loading (run st (PreventDefault # SetLoading True # take k ?mid))" for k
      using loading_unchanged [OF loading_updates_take [OF quiet, of k], of "st\<lparr>loading := True\<rparr>"]
      by simp
    have after: "\<not> loading (run st (handleSubmit e st))"
      unfolding shape using l1 by (simp add: loading_run)
    have "\<forall>k \<le> length ?mid.
                loading (run st (PreventDefault # SetLoading True # take k ?mid))
              \<and> submit_disabled (useWallet e) (run st (PreventDefault # SetLoading True # take k ?mid))"
      using during by (simp add: submit_disabled_def)
    with shape quiet l1 l2 l3 l4 after show ?thesis
      by blast
  qed
  have page_part: "length (running (page_run st0 acts)) \<le> 1
      \<and> (running (page_run st0 acts) \<noteq> [] \<longrightarrow>
            loading (page (page_run st0 acts))
          \<and> (\<forall>e'. submit_disabled (useWallet e') (page (page_run st0 acts)))
          \<and> (\<forall>e'. page_step (page_run st0 acts) (Submit e') = page_run st0 acts))
      \<and> (running (page_run st0 acts) = [] \<longrightarrow> \<not> loading (page (page_run st0 acts)))"
    if idle: "\<not> loading st0"
  proof -
    have inv: "page_inv (page_run st0 acts)"
      using idle by (rule page_inv_run)
    show ?thesis
    proof (cases "running (page_run st0 acts) = []")
      case True
      with inv show ?thesis
        by (simp add: page_inv_def)
    next
      case False
      with inv have ld: "loading (page (page_run st0 acts))"
          and one: "\<exists>segs. running (page_run st0 acts) = [segs]"
        by (auto simp: page_inv_def)
      from ld have dis: "submit_disabled (useWallet e') (page (page_run st0 acts))" for e'
        by (simp add: submit_disabled_def)
      have "page_step (page_run st0 acts) (Submit e') = page_run st0 acts" for e'
        using dis [of e'] by (simp add: page_step_def)
      with False ld one dis show ?thesis
        by auto
    qed
  qed
  from log_part page_part show ?thesis
    by blast
qed

theorem loading_flag_guards_the_attempt_witness:
  "preconditions_hold example_env example_state
   \<and> \<not> loading example_state
   \<and> running (page_run example_state [Submit example_env]) \<noteq> []
   \<and> length (running (page_run example_state [Submit example_env])) \<le> 1
   \<and> loading (page (page_run example_state [Submit example_env]))
   \<and> page_step (page_run example_state [Submit example_env]) (Submit example_env) =
       page_run example_state [Submit example_env]
   \<and> \<not> loading (run example_state (handleSubmit example_env example_state))"
proof -
  have idle: "\<not> loading example_state"
    by (simp add: example_state_def)
  have busy: "running (page_run example_state [Submit example_env]) \<noteq> []"
    by (simp add: example_submitted)
  from loading_flag_guards_the_attempt
         [of example_env example_state example_state "[Submit example_env]"]
       example_preconditions idle busy
  show ?thesis
    by blast
qed

text \<open>
  C10. Every receipt that \<open>handleSuiPayment\<close> returns has status \<open>success\<close>. So the
  status guard of \<open>handleSubmit\<close> never takes its empty else-path on a returned payment:
  a confirmed run whose payment returned shows \<open>Payment successful!\<close> and posts the
  proposal.
\<close>

theorem returned_payment_passes_status_guard:
  assumes "handleSuiPayment sg = (pay, Inr r)"
  shows "status r = ''success''
       \<and> (\<forall>e st. submit_proposal e st r \<noteq> ([], None))
       \<and> (\<forall>e st. preconditions_hold e st \<and> choice e = Confirm
                   \<and> signAndExecuteTransactionBlock (useWallet e) = sg
              \<longrightarrow> (\<exists>req. post_calls (handleSubmit e st) = [req])
                \<and> ToastSuccess ''Payment successful!'' \<in> set (handleSubmit e st))"
proof -
  from assms have s: "status r = ''success''" and lp: "post_calls pay = []"
    by (auto dest!: handleSuiPayment_cases)
  have guard: "submit_proposal e st r \<noteq> ([], None)" for e st
    using s by (simp add: submit_proposal_def Let_def split: option.splits sum.splits)
  have run: "(\<exists>req. post_calls (handleSubmit e st) = [req])
           \<and> ToastSuccess ''Payment successful!'' \<in> set (handleSubmit e st)"
    if pre: "preconditions_hold e st" and ch: "choice e = Confirm"
      and sg: "signAndExecuteTransactionBlock (useWallet e) = sg" for e st
  proof -
    obtain acct where acct: "account (useWallet e) = Some acct"
      using pre by (auto simp: preconditions_hold_def)
    from assms sg have hp: "handleSuiPayment (signAndExecuteTransactionBlock (useWallet e)) = (pay, Inr r)"
      by simp
    note log = handleSubmit_paid [OF pre ch hp acct]
    have "post_calls (handleSubmit e st) = [proposal_request e (formData st) (address acct) (digest r)]"
      unfolding log using lp by (simp split: sum.splits)
    moreover have "ToastSuccess ''Payment successful!'' \<in> set (handleSubmit e st)"
      unfolding log by simp
    ultimately show ?thesis
      by blast
  qed
  from s guard run show ?thesis
    by blast
qed

theorem returned_payment_passes_status_guard_witness:
  "handleSuiPayment (signAndExecuteTransactionBlock (useWallet example_env)) =
     ([SignAndExecute payment_request], Inr example_receipt)
   \<and> status example_receipt = ''success''
   \<and> submit_proposal example_env example_state example_receipt \<noteq> ([], None)
   \<and> (\<exists>req. post_calls (handleSubmit example_env example_state) = [req])
   \<and> ToastSuccess ''Payment successful!'' \<in> set (handleSubmit example_env example_state)"
proof -
  have ch: "choice example_env = Confirm"
    by (simp add: example_env_def)
  from returned_payment_passes_status_guard [OF example_payment] example_payment
       example_preconditions ch
  show ?thesis
    by blast
qed

end
